theory Spec2Isabelle
  imports Main
begin

section \<open>The CarbonTracker contract: data model\<close>

text \<open>
  The contract is written in Solidity 0.8. A \<open>uint256\<close> is modelled as a \<open>nat\<close>; every
  arithmetic operation of the contract that can leave the 256-bit range is written out with the
  panic that checked arithmetic raises. An \<open>address\<close> is a number, \<open>address(0)\<close> is \<open>0\<close>.
  A Solidity \<open>mapping\<close> is a total function whose value at a key never written is the
  all-zero struct. A \<open>require\<close> that fails is the error \<open>Revert\<close> with the message of
  the source. Events are not modelled: an \<open>emit\<close> writes to the log and leaves the storage
  and the result of the call as they are.
\<close>

type_synonym address = nat

definition UINT256_LIMIT :: nat where
  "UINT256_LIMIT = 2 ^ 256"

datatype CreditType = RENEWABLE_ENERGY | FOREST_CONSERVATION | CARBON_CAPTURE | ENERGY_EFFICIENCY

record EmissionReport =
  er_id :: nat
  er_company :: address
  er_facilityId :: string
  er_emissionAmount :: nat
  er_productionVolume :: nat
  er_energySources :: "string list"
  er_timestamp :: nat
  er_verified :: bool
  er_verificationScore :: nat
  er_ipfsHash :: string
  er_verifier :: address

record CarbonCredit =
  cc_id :: nat
  cc_owner :: address
  cc_amount :: nat
  cc_pricePerTon :: nat
  cc_certificationHash :: string
  cc_projectDetails :: string
  cc_retired :: bool
  cc_vintage :: nat
  cc_creditType :: CreditType

record DigitalTwin =
  dt_twinId :: string
  dt_owner :: address
  dt_facilityType :: string
  dt_baselineEmissions :: nat
  dt_currentEmissions :: nat
  dt_lastUpdated :: nat
  dt_active :: bool
  dt_dataHash :: string

text \<open>The value a mapping holds at a key that was never written.\<close>

definition zero_report :: EmissionReport where
  "zero_report = \<lparr>er_id = 0, er_company = 0, er_facilityId = [], er_emissionAmount = 0,
     er_productionVolume = 0, er_energySources = [], er_timestamp = 0, er_verified = False,
     er_verificationScore = 0, er_ipfsHash = [], er_verifier = 0\<rparr>"

definition zero_credit :: CarbonCredit where
  "zero_credit = \<lparr>cc_id = 0, cc_owner = 0, cc_amount = 0, cc_pricePerTon = 0,
     cc_certificationHash = [], cc_projectDetails = [], cc_retired = False, cc_vintage = 0,
     cc_creditType = RENEWABLE_ENERGY\<rparr>"

definition zero_twin :: DigitalTwin where
  "zero_twin = \<lparr>dt_twinId = [], dt_owner = 0, dt_facilityType = [], dt_baselineEmissions = 0,
     dt_currentEmissions = 0, dt_lastUpdated = 0, dt_active = False, dt_dataHash = []\<rparr>"

text \<open>
  The storage of the contract. The two counters are OpenZeppelin \<open>Counters.Counter\<close> values
  and \<open>contractOwner\<close> is the \<open>_owner\<close> slot of OpenZeppelin's \<open>Ownable\<close>; neither
  library is part of this repository.
\<close>

record ledger =
  emissionReportIds :: nat
  carbonCreditIds :: nat
  emissionReports :: "nat \<Rightarrow> EmissionReport"
  carbonCredits :: "nat \<Rightarrow> CarbonCredit"
  digitalTwins :: "string \<Rightarrow> DigitalTwin"
  companyReports :: "address \<Rightarrow> nat list"
  ownedCredits :: "address \<Rightarrow> nat list"
  companyTwins :: "address \<Rightarrow> string list"
  authorizedVerifiers :: "address \<Rightarrow> bool"
  companyScores :: "address \<Rightarrow> nat"
  contractOwner :: address

text \<open>
  What a call sees of its transaction: \<open>msg.sender\<close>, \<open>block.timestamp\<close>, and which
  accounts accept a plain ether \<open>transfer\<close> (an externally owned account always does; a
  contract may reject it, and then \<open>transfer\<close> reverts the whole call). \<open>msg.value\<close> is an
  argument of the one payable function.
\<close>

record env =
  msg_sender :: address
  block_timestamp :: nat
  can_receive :: "address \<Rightarrow> bool"

datatype error = Revert string | Panic | TransferFailed

text \<open>
  Modelled from the spec: \<open>Counters.increment\<close> belongs to the OpenZeppelin library, which is
  not under src/. The spec gives ids as "monotonically increasing integer id, unique, assigned at
  creation, never reused", so the counter is a natural number and incrementing adds one. (A
  256-bit counter that is incremented by one per call cannot wrap in any run that can be
  carried out.)
\<close>

definition increment :: "nat \<Rightarrow> nat" where
  "increment c = c + 1"

section \<open>Deployment\<close>

definition deploy :: "address \<Rightarrow> ledger" where
  "deploy deployer = \<lparr>emissionReportIds = 0, carbonCreditIds = 0,
     emissionReports = (\<lambda>_. zero_report), carbonCredits = (\<lambda>_. zero_credit),
     digitalTwins = (\<lambda>_. zero_twin), companyReports = (\<lambda>_. []), ownedCredits = (\<lambda>_. []),
     companyTwins = (\<lambda>_. []), authorizedVerifiers = (\<lambda>_. False)(deployer := True),
     companyScores = (\<lambda>_. 0), contractOwner = deployer\<rparr>"

section \<open>Emission reports\<close>

definition reportEmissions ::
  "env \<Rightarrow> ledger \<Rightarrow> string \<Rightarrow> nat \<Rightarrow> nat \<Rightarrow> string list \<Rightarrow> string \<Rightarrow> error + (ledger \<times> nat)" where
  "reportEmissions e s facilityId emissionAmount productionVolume energySources ipfsHash =
     (let newReportId = increment (emissionReportIds s) in
      Inr (s\<lparr>emissionReportIds := newReportId,
             emissionReports := (emissionReports s)(newReportId :=
               \<lparr>er_id = newReportId, er_company = msg_sender e, er_facilityId = facilityId,
                er_emissionAmount = emissionAmount, er_productionVolume = productionVolume,
                er_energySources = energySources, er_timestamp = block_timestamp e,
                er_verified = False, er_verificationScore = 0, er_ipfsHash = ipfsHash,
                er_verifier = 0\<rparr>),
             companyReports := (companyReports s)(msg_sender e :=
               companyReports s (msg_sender e) @ [newReportId])\<rparr>,
           newReportId))"

text \<open>
  The modifiers \<open>onlyVerifier\<close> and \<open>validReport\<close> run first, in the order of the function
  header, then the two \<open>require\<close>s of the body. The sum \<open>companyScores[company] +
  verificationScore\<close> is checked arithmetic.
\<close>

definition verifyEmissionReport ::
  "env \<Rightarrow> ledger \<Rightarrow> nat \<Rightarrow> nat \<Rightarrow> bool \<Rightarrow> error + ledger" where
  "verifyEmissionReport e s reportId verificationScore passed =
     (if \<not> authorizedVerifiers s (msg_sender e) then Inl (Revert ''Not an authorized verifier'')
      else if \<not> reportId \<le> emissionReportIds s then Inl (Revert ''Invalid report ID'')
      else if \<not> verificationScore \<le> 100 then Inl (Revert ''Score must be 0-100'')
      else if er_verified (emissionReports s reportId) then Inl (Revert ''Report already verified'')
      else
        let reports = (emissionReports s)(reportId := (emissionReports s reportId)
              \<lparr>er_verified := True, er_verificationScore := verificationScore,
               er_verifier := msg_sender e\<rparr>);
            company = er_company (reports reportId)
        in if passed then
             (if UINT256_LIMIT \<le> companyScores s company + verificationScore then Inl Panic
              else Inr (s\<lparr>emissionReports := reports,
                          companyScores := (companyScores s)(company :=
                            (companyScores s company + verificationScore) div 2)\<rparr>))
           else Inr (s\<lparr>emissionReports := reports,
                       companyScores := (companyScores s)(company :=
                         companyScores s company div 2)\<rparr>))"

section \<open>Digital twins\<close>

definition createDigitalTwin ::
  "env \<Rightarrow> ledger \<Rightarrow> string \<Rightarrow> string \<Rightarrow> nat \<Rightarrow> string \<Rightarrow> error + ledger" where
  "createDigitalTwin e s twinId facilityType baselineEmissions dataHash =
     (if \<not> length (dt_twinId (digitalTwins s twinId)) = 0 then Inl (Revert ''Twin ID already exists'')
      else Inr (s\<lparr>digitalTwins := (digitalTwins s)(twinId :=
                    \<lparr>dt_twinId = twinId, dt_owner = msg_sender e, dt_facilityType = facilityType,
                     dt_baselineEmissions = baselineEmissions,
                     dt_currentEmissions = baselineEmissions,
                     dt_lastUpdated = block_timestamp e, dt_active = True,
                     dt_dataHash = dataHash\<rparr>),
                  companyTwins := (companyTwins s)(msg_sender e :=
                    companyTwins s (msg_sender e) @ [twinId])\<rparr>))"

definition updateDigitalTwin :: "env \<Rightarrow> ledger \<Rightarrow> string \<Rightarrow> nat \<Rightarrow> error + ledger" where
  "updateDigitalTwin e s twinId newEmissions =
     (if \<not> dt_owner (digitalTwins s twinId) = msg_sender e then Inl (Revert ''Not twin owner'')
      else if \<not> dt_active (digitalTwins s twinId) then Inl (Revert ''Twin not active'')
      else Inr (s\<lparr>digitalTwins := (digitalTwins s)(twinId := (digitalTwins s twinId)
                    \<lparr>dt_currentEmissions := newEmissions,
                     dt_lastUpdated := block_timestamp e\<rparr>)\<rparr>))"

section \<open>Carbon credits\<close>

text \<open>\<open>365 days\<close> is the number of seconds of 365 days.\<close>

definition DAYS_365 :: nat where
  "DAYS_365 = 365 * 86400"

definition mintCarbonCredit ::
  "env \<Rightarrow> ledger \<Rightarrow> nat \<Rightarrow> nat \<Rightarrow> string \<Rightarrow> string \<Rightarrow> nat \<Rightarrow> CreditType \<Rightarrow> error + (ledger \<times> nat)" where
  "mintCarbonCredit e s amount pricePerTon certificationHash projectDetails vintage creditType =
     (if \<not> amount > 0 then Inl (Revert ''Amount must be greater than 0'')
      else if \<not> (vintage \<ge> 2020 \<and> vintage \<le> block_timestamp e div DAYS_365 + 1970)
        then Inl (Revert ''Invalid vintage year'')
      else
        let newCreditId = increment (carbonCreditIds s) in
        Inr (s\<lparr>carbonCreditIds := newCreditId,
               carbonCredits := (carbonCredits s)(newCreditId :=
                 \<lparr>cc_id = newCreditId, cc_owner = msg_sender e, cc_amount = amount,
                  cc_pricePerTon = pricePerTon, cc_certificationHash = certificationHash,
                  cc_projectDetails = projectDetails, cc_retired = False, cc_vintage = vintage,
                  cc_creditType = creditType\<rparr>),
               ownedCredits := (ownedCredits s)(msg_sender e :=
                 ownedCredits s (msg_sender e) @ [newCreditId])\<rparr>,
             newCreditId))"

text \<open>
  The loop of \<open>_removeFromOwnedCredits\<close>: at the first index holding the id, the last element
  is copied there, the array is popped and the loop breaks.
\<close>

function remove_loop :: "nat list \<Rightarrow> nat \<Rightarrow> nat \<Rightarrow> nat list" where
  "remove_loop credits i creditId =
     (if i < length credits then
        (if credits ! i = creditId then butlast (credits[i := credits ! (length credits - 1)])
         else remove_loop credits (i + 1) creditId)
      else credits)"
  by pat_completeness auto
termination
  by (relation "measure (\<lambda>(credits, i, creditId). length credits - i)") auto

definition removeFromOwnedCredits :: "ledger \<Rightarrow> address \<Rightarrow> nat \<Rightarrow> ledger" where
  "removeFromOwnedCredits s owner creditId =
     s\<lparr>ownedCredits := (ownedCredits s)(owner := remove_loop (ownedCredits s owner) 0 creditId)\<rparr>"

text \<open>
  \<open>tradeCarbonCredit\<close> is the one payable function; \<open>msg_value\<close> is the ether attached. The
  modifier \<open>validCredit\<close> runs before the body. Both occurrences of \<open>credit.pricePerTon *
  amount\<close> are checked arithmetic. Each \<open>transfer\<close> the call makes is returned, in order, as
  a pair of recipient and amount; a recipient that does not accept it reverts the call. The two
  branches of the body, the full trade and the partial trade, are \<open>fullTrade\<close> and
  \<open>partialTrade\<close>. A
  \<open>transfer\<close> forwards too little gas for the recipient to call back into the contract, so a call
  runs to its end before the next one starts, and the \<open>nonReentrant\<close> guard, which is released
  again when the call ends, never fires between calls.
\<close>

definition fullTrade :: "env \<Rightarrow> ledger \<Rightarrow> nat \<Rightarrow> ledger" where
  "fullTrade e s creditId =
     (let credit = carbonCredits s creditId;
          previousOwner = cc_owner credit;
          s1 = s\<lparr>carbonCredits := (carbonCredits s)(creditId := credit\<lparr>cc_owner := msg_sender e\<rparr>)\<rparr>;
          s2 = removeFromOwnedCredits s1 previousOwner creditId
      in s2\<lparr>ownedCredits := (ownedCredits s2)(msg_sender e :=
               ownedCredits s2 (msg_sender e) @ [creditId])\<rparr>)"

definition partialTrade :: "env \<Rightarrow> ledger \<Rightarrow> nat \<Rightarrow> nat \<Rightarrow> ledger" where
  "partialTrade e s creditId amount =
     (let credit = (carbonCredits s creditId)
            \<lparr>cc_amount := cc_amount (carbonCredits s creditId) - amount\<rparr>;
          newCreditId = increment (carbonCreditIds s)
      in s\<lparr>carbonCreditIds := newCreditId,
           carbonCredits := (carbonCredits s)(creditId := credit, newCreditId :=
             \<lparr>cc_id = newCreditId, cc_owner = msg_sender e, cc_amount = amount,
              cc_pricePerTon = cc_pricePerTon credit,
              cc_certificationHash = cc_certificationHash credit,
              cc_projectDetails = cc_projectDetails credit, cc_retired = False,
              cc_vintage = cc_vintage credit, cc_creditType = cc_creditType credit\<rparr>),
           ownedCredits := (ownedCredits s)(msg_sender e :=
             ownedCredits s (msg_sender e) @ [newCreditId])\<rparr>)"

definition tradeCarbonCredit ::
  "env \<Rightarrow> ledger \<Rightarrow> nat \<Rightarrow> nat \<Rightarrow> nat \<Rightarrow> error + (ledger \<times> (address \<times> nat) list)" where
  "tradeCarbonCredit e s creditId amount msg_value =
     (if \<not> creditId \<le> carbonCreditIds s then Inl (Revert ''Invalid credit ID'')
      else if cc_retired (carbonCredits s creditId) then Inl (Revert ''Credit already retired'')
      else
        let credit = carbonCredits s creditId in
        if \<not> amount \<le> cc_amount credit then Inl (Revert ''Insufficient credit amount'')
        else if UINT256_LIMIT \<le> cc_pricePerTon credit * amount then Inl Panic
        else if \<not> msg_value \<ge> cc_pricePerTon credit * amount then Inl (Revert ''Insufficient payment'')
        else if \<not> cc_owner credit \<noteq> msg_sender e then Inl (Revert ''Cannot trade own credit'')
        else
          let previousOwner = cc_owner credit;
              totalPrice = cc_pricePerTon credit * amount
          in
          if \<not> can_receive e previousOwner then Inl TransferFailed
          else
            let s' = (if amount = cc_amount credit then fullTrade e s creditId
                      else partialTrade e s creditId amount)
            in
            if msg_value > totalPrice then
              (if \<not> can_receive e (msg_sender e) then Inl TransferFailed
               else Inr (s', [(previousOwner, totalPrice), (msg_sender e, msg_value - totalPrice)]))
            else Inr (s', [(previousOwner, totalPrice)]))"

definition retireCarbonCredit :: "env \<Rightarrow> ledger \<Rightarrow> nat \<Rightarrow> error + ledger" where
  "retireCarbonCredit e s creditId =
     (if \<not> creditId \<le> carbonCreditIds s then Inl (Revert ''Invalid credit ID'')
      else if cc_retired (carbonCredits s creditId) then Inl (Revert ''Credit already retired'')
      else if \<not> cc_owner (carbonCredits s creditId) = msg_sender e then Inl (Revert ''Not credit owner'')
      else Inr (s\<lparr>carbonCredits := (carbonCredits s)(creditId :=
                    (carbonCredits s creditId)\<lparr>cc_retired := True\<rparr>)\<rparr>))"

section \<open>Verifier administration\<close>

text \<open>
  \<open>onlyOwner\<close> is the modifier of OpenZeppelin's \<open>Ownable\<close>, which compares the caller with
  the stored owner. \<open>pause\<close> has an empty body.
\<close>

definition addVerifier :: "env \<Rightarrow> ledger \<Rightarrow> address \<Rightarrow> error + ledger" where
  "addVerifier e s verifier =
     (if \<not> contractOwner s = msg_sender e then Inl (Revert ''Ownable: caller is not the owner'')
      else Inr (s\<lparr>authorizedVerifiers := (authorizedVerifiers s)(verifier := True)\<rparr>))"

definition removeVerifier :: "env \<Rightarrow> ledger \<Rightarrow> address \<Rightarrow> error + ledger" where
  "removeVerifier e s verifier =
     (if \<not> contractOwner s = msg_sender e then Inl (Revert ''Ownable: caller is not the owner'')
      else Inr (s\<lparr>authorizedVerifiers := (authorizedVerifiers s)(verifier := False)\<rparr>))"

definition pause :: "env \<Rightarrow> ledger \<Rightarrow> error + ledger" where
  "pause e s =
     (if \<not> contractOwner s = msg_sender e then Inl (Revert ''Ownable: caller is not the owner'')
      else Inr s)"

text \<open>
  The two public functions the contract inherits from \<open>Ownable\<close>; they write the owner slot
  only.
\<close>

definition transferOwnership :: "env \<Rightarrow> ledger \<Rightarrow> address \<Rightarrow> error + ledger" where
  "transferOwnership e s newOwner =
     (if \<not> contractOwner s = msg_sender e then Inl (Revert ''Ownable: caller is not the owner'')
      else if \<not> newOwner \<noteq> 0 then Inl (Revert ''Ownable: new owner is the zero address'')
      else Inr (s\<lparr>contractOwner := newOwner\<rparr>))"

definition renounceOwnership :: "env \<Rightarrow> ledger \<Rightarrow> error + ledger" where
  "renounceOwnership e s =
     (if \<not> contractOwner s = msg_sender e then Inl (Revert ''Ownable: caller is not the owner'')
      else Inr (s\<lparr>contractOwner := 0\<rparr>))"

section \<open>Transactions and runs\<close>

text \<open>
  A transaction is one call of a public state-changing function. A call that fails reverts:
  the storage is what it was before the call.
\<close>

datatype call =
  ReportEmissions string nat nat "string list" string
| VerifyEmissionReport nat nat bool
| CreateDigitalTwin string string nat string
| UpdateDigitalTwin string nat
| MintCarbonCredit nat nat string string nat CreditType
| TradeCarbonCredit nat nat nat
| RetireCarbonCredit nat
| AddVerifier address
| RemoveVerifier address
| Pause
| TransferOwnership address
| RenounceOwnership

fun perform :: "env \<Rightarrow> ledger \<Rightarrow> call \<Rightarrow> error + ledger" where
  "perform e s (ReportEmissions f a p es h) = map_sum id fst (reportEmissions e s f a p es h)"
| "perform e s (VerifyEmissionReport r v p) = verifyEmissionReport e s r v p"
| "perform e s (CreateDigitalTwin t f b d) = createDigitalTwin e s t f b d"
| "perform e s (UpdateDigitalTwin t n) = updateDigitalTwin e s t n"
| "perform e s (MintCarbonCredit a p c d v t) = map_sum id fst (mintCarbonCredit e s a p c d v t)"
| "perform e s (TradeCarbonCredit c a v) = map_sum id fst (tradeCarbonCredit e s c a v)"
| "perform e s (RetireCarbonCredit c) = retireCarbonCredit e s c"
| "perform e s (AddVerifier v) = addVerifier e s v"
| "perform e s (RemoveVerifier v) = removeVerifier e s v"
| "perform e s Pause = pause e s"
| "perform e s (TransferOwnership n) = transferOwnership e s n"
| "perform e s RenounceOwnership = renounceOwnership e s"

definition transact :: "ledger \<Rightarrow> env \<times> call \<Rightarrow> ledger" where
  "transact s tx = (case perform (fst tx) s (snd tx) of Inl _ \<Rightarrow> s | Inr s' \<Rightarrow> s')"

definition run :: "ledger \<Rightarrow> (env \<times> call) list \<Rightarrow> ledger" where
  "run s txs = foldl transact s txs"

section \<open>Notions used by the properties\<close>

text \<open>The ether a list of transfers pays to one account.\<close>

definition paid_to :: "address \<Rightarrow> (address \<times> nat) list \<Rightarrow> nat" where
  "paid_to who payouts = sum_list (map snd (filter (\<lambda>p. fst p = who) payouts))"

text \<open>A transaction environment for an externally owned account at a given block time.\<close>

definition caller :: "address \<Rightarrow> nat \<Rightarrow> env" where
  "caller a t = \<lparr>msg_sender = a, block_timestamp = t, can_receive = (\<lambda>_. True)\<rparr>"

text \<open>Every lot flagged as retired has an id the counter has reached.\<close>

definition retired_bounded :: "ledger \<Rightarrow> bool" where
  "retired_bounded s = (\<forall>i. cc_retired (carbonCredits s i) \<longrightarrow> i \<le> carbonCreditIds s)"

text \<open>
  Provenance of lots, kept beside the storage while a run is replayed (the contract does not
  store it): \<open>root_of\<close> gives for a lot the minted lot it descends from, \<open>minted_amount\<close>
  gives for a minted lot the amount it was minted with. A successful mint records the new lot as
  its own root; a successful trade that creates a lot records the root of the lot it was split
  from.
\<close>

record provenance =
  root_of :: "nat \<Rightarrow> nat option"
  minted_amount :: "nat \<Rightarrow> nat option"

definition no_provenance :: provenance where
  "no_provenance = \<lparr>root_of = (\<lambda>_. None), minted_amount = (\<lambda>_. None)\<rparr>"

fun track :: "env \<Rightarrow> ledger \<Rightarrow> call \<Rightarrow> provenance \<Rightarrow> provenance" where
  "track e s (MintCarbonCredit a p c d v t) g =
     (case mintCarbonCredit e s a p c d v t of
        Inl _ \<Rightarrow> g
      | Inr (s', newCreditId) \<Rightarrow>
          g\<lparr>root_of := (root_of g)(newCreditId \<mapsto> newCreditId),
            minted_amount := (minted_amount g)(newCreditId \<mapsto> a)\<rparr>)"
| "track e s (TradeCarbonCredit c a v) g =
     (case tradeCarbonCredit e s c a v of
        Inl _ \<Rightarrow> g
      | Inr (s', _) \<Rightarrow>
          if carbonCreditIds s' = carbonCreditIds s then g
          else g\<lparr>root_of := (root_of g)(carbonCreditIds s' := root_of g c)\<rparr>)"
| "track e s _ g = g"

fun run_tracked :: "ledger \<Rightarrow> provenance \<Rightarrow> (env \<times> call) list \<Rightarrow> ledger \<times> provenance" where
  "run_tracked s g [] = (s, g)"
| "run_tracked s g (tx # txs) = run_tracked (transact s tx) (track (fst tx) s (snd tx) g) txs"

text \<open>
  The sum of the amounts of the lots \<open>1, \<dots>, carbonCreditIds\<close> that descend from lot \<open>c\<close>.
\<close>

definition lineage_total :: "ledger \<Rightarrow> provenance \<Rightarrow> nat \<Rightarrow> nat" where
  "lineage_total s g c =
     sum_list (map (\<lambda>i. cc_amount (carbonCredits s i))
       (filter (\<lambda>i. root_of g i = Some c) [1..<Suc (carbonCreditIds s)]))"

text \<open>
  The invariant of a run: provenance only names lots the counter has reached, and every minted
  lot is its own root and the amounts of its lineage add up to the minted amount.
\<close>

definition conserved :: "ledger \<Rightarrow> provenance \<Rightarrow> bool" where
  "conserved s g =
     ((\<forall>i r. root_of g i = Some r \<longrightarrow> 1 \<le> i \<and> i \<le> carbonCreditIds s \<and> r \<le> carbonCreditIds s)
      \<and> (\<forall>c N. minted_amount g c = Some N \<longrightarrow> root_of g c = Some c \<and> lineage_total s g c = N))"

text \<open>
  The spec bounds the vintage by "the current calendar year, computed from the chain clock". This
  is that notion, written from the spec's words to be compared with what the contract computes:
  the year of the Gregorian calendar (UTC) that holds the Unix time \<open>ts\<close>, found by walking
  whole years of 365 or 366 days from 1970.
\<close>

definition is_leap_year :: "nat \<Rightarrow> bool" where
  "is_leap_year y = ((y mod 4 = 0 \<and> y mod 100 \<noteq> 0) \<or> y mod 400 = 0)"

definition days_in_year :: "nat \<Rightarrow> nat" where
  "days_in_year y = (if is_leap_year y then 366 else 365)"

function year_from :: "nat \<Rightarrow> nat \<Rightarrow> nat" where
  "year_from y d = (if d < days_in_year y then y else year_from (y + 1) (d - days_in_year y))"
  by pat_completeness auto
termination
  by (relation "measure (\<lambda>(y, d). d)") (auto simp: days_in_year_def)

definition spec_calendar_year :: "nat \<Rightarrow> nat" where
  "spec_calendar_year ts = year_from 1970 (ts div 86400)"

text \<open>Whether a call is a \<open>createDigitalTwin\<close> with the twin id \<open>k\<close>.\<close>

fun creates :: "string \<Rightarrow> call \<Rightarrow> bool" where
  "creates k (CreateDigitalTwin t f b d) = (t = k)"
| "creates k _ = False"

section \<open>What a call changes\<close>

lemmas eval_defs = run_def transact_def caller_def deploy_def reportEmissions_def increment_def
  verifyEmissionReport_def createDigitalTwin_def updateDigitalTwin_def mintCarbonCredit_def
  tradeCarbonCredit_def fullTrade_def partialTrade_def removeFromOwnedCredits_def
  retireCarbonCredit_def zero_report_def zero_credit_def zero_twin_def UINT256_LIMIT_def
  DAYS_365_def Let_def

lemmas simple_call_defs = transact_def reportEmissions_def increment_def verifyEmissionReport_def
  createDigitalTwin_def updateDigitalTwin_def mintCarbonCredit_def retireCarbonCredit_def
  addVerifier_def removeVerifier_def pause_def transferOwnership_def renounceOwnership_def Let_def

lemma run_Cons: "run s (tx # txs) = run (transact s tx) txs"
  by (simp add: run_def)

lemma run_append: "run s (txs @ txs') = run (run s txs) txs'"
  by (simp add: run_def)

lemma trade_Inr:
  assumes "tradeCarbonCredit e s creditId amount v = Inr (s', payouts)"
  shows "creditId \<le> carbonCreditIds s" "\<not> cc_retired (carbonCredits s creditId)"
    "amount \<le> cc_amount (carbonCredits s creditId)"
    "cc_owner (carbonCredits s creditId) \<noteq> msg_sender e"
    "cc_pricePerTon (carbonCredits s creditId) * amount \<le> v"
    "s' = (if amount = cc_amount (carbonCredits s creditId) then fullTrade e s creditId
           else partialTrade e s creditId amount)"
  using assms unfolding tradeCarbonCredit_def Let_def
  by (simp_all split: if_splits)

lemma fullTrade_simps:
  "emissionReportIds (fullTrade e s c) = emissionReportIds s"
  "emissionReports (fullTrade e s c) = emissionReports s"
  "digitalTwins (fullTrade e s c) = digitalTwins s"
  "authorizedVerifiers (fullTrade e s c) = authorizedVerifiers s"
  "companyScores (fullTrade e s c) = companyScores s"
  "contractOwner (fullTrade e s c) = contractOwner s"
  "carbonCreditIds (fullTrade e s c) = carbonCreditIds s"
  "cc_amount (carbonCredits (fullTrade e s c) i) = cc_amount (carbonCredits s i)"
  "cc_retired (carbonCredits (fullTrade e s c) i) = cc_retired (carbonCredits s i)"
  "cc_owner (carbonCredits (fullTrade e s c) i) =
     (if i = c then msg_sender e else cc_owner (carbonCredits s i))"
  by (simp_all add: fullTrade_def Let_def removeFromOwnedCredits_def)

lemma partialTrade_simps:
  "emissionReportIds (partialTrade e s c a) = emissionReportIds s"
  "emissionReports (partialTrade e s c a) = emissionReports s"
  "digitalTwins (partialTrade e s c a) = digitalTwins s"
  "authorizedVerifiers (partialTrade e s c a) = authorizedVerifiers s"
  "companyScores (partialTrade e s c a) = companyScores s"
  "contractOwner (partialTrade e s c a) = contractOwner s"
  "carbonCreditIds (partialTrade e s c a) = Suc (carbonCreditIds s)"
  "cc_amount (carbonCredits (partialTrade e s c a) i) =
     (if i = Suc (carbonCreditIds s) then a
      else if i = c then cc_amount (carbonCredits s c) - a else cc_amount (carbonCredits s i))"
  "cc_retired (carbonCredits (partialTrade e s c a) i) =
     (if i = Suc (carbonCreditIds s) then False else cc_retired (carbonCredits s i))"
  "cc_owner (carbonCredits (partialTrade e s c a) i) =
     (if i = Suc (carbonCreditIds s) then msg_sender e else cc_owner (carbonCredits s i))"
  by (simp_all add: partialTrade_def Let_def increment_def)

lemma transact_trade_cases:
  obtains (reverted) "transact s (e, TradeCarbonCredit c a v) = s"
  | (full) "transact s (e, TradeCarbonCredit c a v) = fullTrade e s c"
      "c \<le> carbonCreditIds s" "\<not> cc_retired (carbonCredits s c)"
      "a = cc_amount (carbonCredits s c)"
  | (partial) "transact s (e, TradeCarbonCredit c a v) = partialTrade e s c a"
      "c \<le> carbonCreditIds s" "\<not> cc_retired (carbonCredits s c)"
      "a < cc_amount (carbonCredits s c)"
proof (cases "tradeCarbonCredit e s c a v")
  case (Inl err)
  then have "transact s (e, TradeCarbonCredit c a v) = s"
    by (simp add: transact_def)
  then show ?thesis by (rule reverted)
next
  case (Inr res)
  obtain s' payouts where res: "res = (s', payouts)" by (cases res)
  note ok = trade_Inr [OF Inr [unfolded res]]
  have t: "transact s (e, TradeCarbonCredit c a v) = s'"
    using Inr res by (simp add: transact_def)
  show ?thesis
  proof (cases "a = cc_amount (carbonCredits s c)")
    case True
    with ok t show ?thesis by (intro full) simp_all
  next
    case False
    with ok t show ?thesis by (intro partial) simp_all
  qed
qed

section \<open>Verification happens once\<close>

text \<open>A verified report below the counter is out of reach of every call.\<close>

lemma transact_verified_report:
  assumes "rid \<le> emissionReportIds s" and "er_verified (emissionReports s rid)"
  shows "rid \<le> emissionReportIds (transact s tx) \<and>
         emissionReports (transact s tx) rid = emissionReports s rid"
proof (cases tx)
  case (Pair e c)
  show ?thesis
  proof (cases c)
    case (TradeCarbonCredit cid a v)
    show ?thesis
      using assms unfolding Pair TradeCarbonCredit
      by (cases rule: transact_trade_cases [of s e cid a v])
         (simp_all add: fullTrade_simps partialTrade_simps)
  next
    case (VerifyEmissionReport r sc p)
    show ?thesis
      using assms unfolding Pair VerifyEmissionReport
      by (auto simp: transact_def verifyEmissionReport_def Let_def)
  qed (use assms Pair in \<open>auto simp: transact_def reportEmissions_def increment_def
        createDigitalTwin_def updateDigitalTwin_def mintCarbonCredit_def retireCarbonCredit_def
        addVerifier_def removeVerifier_def pause_def transferOwnership_def renounceOwnership_def
        Let_def\<close>)
qed

lemma run_verified_report:
  assumes "rid \<le> emissionReportIds s" and "er_verified (emissionReports s rid)"
  shows "rid \<le> emissionReportIds (run s txs) \<and>
         emissionReports (run s txs) rid = emissionReports s rid"
  using assms
proof (induction txs arbitrary: s)
  case Nil
  then show ?case by (simp add: run_def)
next
  case (Cons tx txs)
  have step: "rid \<le> emissionReportIds (transact s tx) \<and>
         emissionReports (transact s tx) rid = emissionReports s rid"
    using Cons.prems by (rule transact_verified_report)
  then have "er_verified (emissionReports (transact s tx) rid)"
    using Cons.prems by simp
  with step Cons.IH [of "transact s tx"] show ?case
    by (simp add: run_def)
qed

lemma verify_Inr:
  assumes "verifyEmissionReport e s rid sc p = Inr s'"
  shows "rid \<le> emissionReportIds s'" "er_verified (emissionReports s' rid)"
    "er_verificationScore (emissionReports s' rid) = sc"
    "er_verifier (emissionReports s' rid) = msg_sender e"
  using assms by (auto simp: verifyEmissionReport_def Let_def split: if_splits)

text \<open>
  Claim C4. Once \<open>verifyEmissionReport\<close> has succeeded on a report id, then after any further
  transactions a call on the same id by an authorized verifier with a score of at most 100 fails
  with "Report already verified" (the spec's AlreadyVerifiedError), changes nothing, and the
  report still holds the score and the verifier of the first call.
\<close>

theorem verification_exactly_once:
  assumes "verifyEmissionReport e s rid sc p = Inr s1"
    and "authorizedVerifiers (run s1 txs) (msg_sender e')"
    and "sc' \<le> 100"
  shows "verifyEmissionReport e' (run s1 txs) rid sc' p' = Inl (Revert ''Report already verified'')
       \<and> transact (run s1 txs) (e', VerifyEmissionReport rid sc' p') = run s1 txs
       \<and> er_verificationScore (emissionReports (run s1 txs) rid) = sc
       \<and> er_verifier (emissionReports (run s1 txs) rid) = msg_sender e"
proof -
  note first = verify_Inr [OF assms(1)]
  have later: "rid \<le> emissionReportIds (run s1 txs)"
    "emissionReports (run s1 txs) rid = emissionReports s1 rid"
    using run_verified_report [OF first(1,2), of txs] by simp_all
  have rejected: "verifyEmissionReport e' (run s1 txs) rid sc' p' = Inl (Revert ''Report already verified'')"
    using later first(2) assms(2,3) by (simp add: verifyEmissionReport_def)
  then show ?thesis
    using later first by (simp add: transact_def)
qed


theorem verification_exactly_once_witness:
  "\<exists>s1. verifyEmissionReport (caller 1 1700000100)
          (run (deploy 1) [(caller 2 1700000000, ReportEmissions ''F1'' 1000 50 [''coal''] ''Qm'')])
          1 90 True = Inr s1
        \<and> authorizedVerifiers (run s1 [(caller 1 1700000200, AddVerifier 3)]) (msg_sender (caller 3 1700000300))
        \<and> (20::nat) \<le> 100
        \<and> verifyEmissionReport (caller 3 1700000300) (run s1 [(caller 1 1700000200, AddVerifier 3)])
            1 20 False = Inl (Revert ''Report already verified'')
        \<and> er_verificationScore (emissionReports (run s1 [(caller 1 1700000200, AddVerifier 3)]) 1) = 90
        \<and> er_verifier (emissionReports (run s1 [(caller 1 1700000200, AddVerifier 3)]) 1) = 1"
proof -
  let ?s = "run (deploy 1) [(caller 2 1700000000, ReportEmissions ''F1'' 1000 50 [''coal''] ''Qm'')]"
  have "\<exists>s1. verifyEmissionReport (caller 1 1700000100) ?s 1 90 True = Inr s1
          \<and> contractOwner s1 = 1"
    by (simp add: eval_defs)
  then obtain s1 where ok: "verifyEmissionReport (caller 1 1700000100) ?s 1 90 True = Inr s1"
    and owner: "contractOwner s1 = 1"
    by blast
  have auth: "authorizedVerifiers (run s1 [(caller 1 1700000200, AddVerifier 3)])
      (msg_sender (caller 3 1700000300))"
    using owner by (simp add: run_def transact_def addVerifier_def caller_def)
  have le: "(20::nat) \<le> 100" by simp
  from verification_exactly_once [OF ok auth le, of False] ok auth show ?thesis
    by (simp add: caller_def)
qed

section \<open>The score update\<close>

text \<open>
  Claim C7. A successful \<open>verifyEmissionReport\<close> sets the sustainability score of the
  report's company to \<open>(oldScore + score) div 2\<close> when \<open>passed\<close> is true and to
  \<open>oldScore div 2\<close> when it is false, and marks the report verified with the score and
  the verifier; a call succeeds only on an unverified report with a score of at most 100.
\<close>

theorem score_update_rule:
  assumes "verifyEmissionReport e s reportId score passed = Inr s'"
  shows "companyScores s' (er_company (emissionReports s reportId)) =
           (if passed then (companyScores s (er_company (emissionReports s reportId)) + score) div 2
            else companyScores s (er_company (emissionReports s reportId)) div 2)
       \<and> er_verified (emissionReports s' reportId)
       \<and> er_verificationScore (emissionReports s' reportId) = score
       \<and> er_verifier (emissionReports s' reportId) = msg_sender e
       \<and> score \<le> 100 \<and> \<not> er_verified (emissionReports s reportId)"
  using assms by (auto simp: verifyEmissionReport_def Let_def split: if_splits)

theorem score_update_rule_witness:
  "\<exists>s'. verifyEmissionReport (caller 1 1700000100)
          (run (deploy 1) [(caller 2 1700000000, ReportEmissions ''F1'' 1000 50 [''coal''] ''Qm'')])
          1 90 True = Inr s'
        \<and> companyScores s' 2 = 45 \<and> er_verified (emissionReports s' 1)"
proof -
  let ?s = "run (deploy 1) [(caller 2 1700000000, ReportEmissions ''F1'' 1000 50 [''coal''] ''Qm'')]"
  have "\<exists>s'. verifyEmissionReport (caller 1 1700000100) ?s 1 90 True = Inr s'"
    by (simp add: eval_defs)
  then obtain s' where ok: "verifyEmissionReport (caller 1 1700000100) ?s 1 90 True = Inr s'" ..
  have before: "er_company (emissionReports ?s 1) = 2" "companyScores ?s 2 = 0"
    by (simp_all add: eval_defs)
  from score_update_rule [OF ok] before ok show ?thesis by simp
qed

section \<open>Payment\<close>

text \<open>
  Claim C2. A trade of \<open>amount\<close> of a lot priced at \<open>p\<close> per ton with payment \<open>v\<close>
  that succeeds pays exactly \<open>p * amount\<close> to the previous owner and exactly
  \<open>v - p * amount\<close> back to the caller, and nothing to anyone else.
\<close>

theorem payment_exactness:
  assumes "tradeCarbonCredit e s creditId amount v = Inr (s', payouts)"
  shows "paid_to (cc_owner (carbonCredits s creditId)) payouts
           = cc_pricePerTon (carbonCredits s creditId) * amount
       \<and> paid_to (msg_sender e) payouts = v - cc_pricePerTon (carbonCredits s creditId) * amount
       \<and> cc_pricePerTon (carbonCredits s creditId) * amount \<le> v
       \<and> (\<forall>x. x \<noteq> cc_owner (carbonCredits s creditId) \<and> x \<noteq> msg_sender e \<longrightarrow> paid_to x payouts = 0)"
proof -
  have "payouts = (if v > cc_pricePerTon (carbonCredits s creditId) * amount
         then [(cc_owner (carbonCredits s creditId), cc_pricePerTon (carbonCredits s creditId) * amount),
               (msg_sender e, v - cc_pricePerTon (carbonCredits s creditId) * amount)]
         else [(cc_owner (carbonCredits s creditId), cc_pricePerTon (carbonCredits s creditId) * amount)])"
    using assms unfolding tradeCarbonCredit_def Let_def by (simp split: if_splits)
  with trade_Inr(4,5) [OF assms] show ?thesis
    by (auto simp: paid_to_def)
qed

theorem payment_exactness_witness:
  "\<exists>s' payouts. tradeCarbonCredit (caller 2 1700000100)
        (run (deploy 9) [(caller 1 1700000000,
           MintCarbonCredit 100 10 ''cert'' ''wind farm'' 2022 RENEWABLE_ENERGY)])
        1 40 405 = Inr (s', payouts)
      \<and> paid_to 1 payouts = 400 \<and> paid_to 2 payouts = 5"
proof -
  let ?s = "run (deploy 9) [(caller 1 1700000000,
           MintCarbonCredit 100 10 ''cert'' ''wind farm'' 2022 RENEWABLE_ENERGY)]"
  have "\<exists>r. tradeCarbonCredit (caller 2 1700000100) ?s 1 40 405 = Inr r"
    by (simp add: eval_defs)
  then obtain s' payouts where
    ok: "tradeCarbonCredit (caller 2 1700000100) ?s 1 40 405 = Inr (s', payouts)"
    by auto
  have before: "cc_owner (carbonCredits ?s 1) = 1" "cc_pricePerTon (carbonCredits ?s 1) = 10"
    by (simp_all add: eval_defs)
  from payment_exactness [OF ok] before ok show ?thesis by (simp add: caller_def)
qed


section \<open>Retirement is terminal\<close>

lemma transact_retired:
  assumes "cid \<le> carbonCreditIds s" and "cc_retired (carbonCredits s cid)"
  shows "cid \<le> carbonCreditIds (transact s tx) \<and> cc_retired (carbonCredits (transact s tx) cid)"
proof (cases tx)
  case (Pair e c)
  show ?thesis
  proof (cases c)
    case (TradeCarbonCredit c' a v)
    show ?thesis
      using assms unfolding Pair TradeCarbonCredit
      by (cases rule: transact_trade_cases [of s e c' a v])
         (simp_all add: fullTrade_simps partialTrade_simps)
  qed (use assms Pair in \<open>auto simp: simple_call_defs\<close>)
qed

lemma run_retired:
  assumes "cid \<le> carbonCreditIds s" and "cc_retired (carbonCredits s cid)"
  shows "cid \<le> carbonCreditIds (run s txs) \<and> cc_retired (carbonCredits (run s txs) cid)"
  using assms
proof (induction txs arbitrary: s)
  case Nil
  then show ?case by (simp add: run_def)
next
  case (Cons tx txs)
  from transact_retired [OF Cons.prems] Cons.IH [of "transact s tx"] show ?case
    by (simp add: run_Cons)
qed

lemma transact_retired_bounded:
  assumes "retired_bounded s"
  shows "retired_bounded (transact s tx)"
proof (cases tx)
  case (Pair e c)
  show ?thesis
  proof (cases c)
    case (TradeCarbonCredit c' a v)
    show ?thesis
      using assms unfolding Pair TradeCarbonCredit retired_bounded_def
      by (cases rule: transact_trade_cases [of s e c' a v])
         (auto simp: fullTrade_simps partialTrade_simps split: if_splits)
  qed (use assms Pair in \<open>auto simp: simple_call_defs retired_bounded_def\<close>)
qed

lemma run_retired_bounded: "retired_bounded s \<Longrightarrow> retired_bounded (run s txs)"
  by (induction txs arbitrary: s) (simp_all add: run_def transact_retired_bounded)

lemma deploy_retired_bounded: "retired_bounded (deploy d)"
  by (simp add: retired_bounded_def deploy_def zero_credit_def)

text \<open>
  Claim C5. In every state reached from deployment, a lot whose \<open>retired\<close> flag is set keeps
  the flag through all further transactions, and every later \<open>tradeCarbonCredit\<close> and
  \<open>retireCarbonCredit\<close> on it fails with "Credit already retired" (the spec's
  AlreadyRetiredError) and leaves the storage as it was.
\<close>

theorem retirement_terminal:
  assumes "cc_retired (carbonCredits (run (deploy d) txs) cid)"
  shows "cc_retired (carbonCredits (run (deploy d) (txs @ txs')) cid)
       \<and> tradeCarbonCredit e (run (deploy d) (txs @ txs')) cid a v
           = Inl (Revert ''Credit already retired'')
       \<and> retireCarbonCredit e (run (deploy d) (txs @ txs')) cid
           = Inl (Revert ''Credit already retired'')
       \<and> transact (run (deploy d) (txs @ txs')) (e, TradeCarbonCredit cid a v)
           = run (deploy d) (txs @ txs')
       \<and> transact (run (deploy d) (txs @ txs')) (e, RetireCarbonCredit cid)
           = run (deploy d) (txs @ txs')"
proof -
  have "retired_bounded (run (deploy d) txs)"
    by (rule run_retired_bounded [OF deploy_retired_bounded])
  with assms have "cid \<le> carbonCreditIds (run (deploy d) txs)"
    by (simp add: retired_bounded_def)
  from run_retired [OF this assms, of txs']
  have later: "cid \<le> carbonCreditIds (run (deploy d) (txs @ txs'))"
    "cc_retired (carbonCredits (run (deploy d) (txs @ txs')) cid)"
    by (simp_all add: run_append)
  then show ?thesis
    by (simp add: tradeCarbonCredit_def retireCarbonCredit_def transact_def)
qed

theorem retirement_terminal_witness:
  "cc_retired (carbonCredits (run (deploy 9)
       [(caller 1 1700000000, MintCarbonCredit 50 10 ''cert'' ''forest'' 2021 FOREST_CONSERVATION),
        (caller 1 1700000100, RetireCarbonCredit 1)]) 1)
   \<and> tradeCarbonCredit (caller 2 1700000300) (run (deploy 9)
       ([(caller 1 1700000000, MintCarbonCredit 50 10 ''cert'' ''forest'' 2021 FOREST_CONSERVATION),
         (caller 1 1700000100, RetireCarbonCredit 1)] @
        [(caller 2 1700000200, MintCarbonCredit 7 3 ''c2'' ''solar'' 2023 RENEWABLE_ENERGY)])) 1 10 100
       = Inl (Revert ''Credit already retired'')"
proof -
  have h: "cc_retired (carbonCredits (run (deploy 9)
       [(caller 1 1700000000, MintCarbonCredit 50 10 ''cert'' ''forest'' 2021 FOREST_CONSERVATION),
        (caller 1 1700000100, RetireCarbonCredit 1)]) 1)"
    by (simp add: eval_defs)
  from h retirement_terminal [OF h] show ?thesis by blast
qed

section \<open>Conservation of the minted amount\<close>

lemma lineage_total_sum:
  "lineage_total s g c =
     (\<Sum>i = 1..carbonCreditIds s. if root_of g i = Some c then cc_amount (carbonCredits s i) else 0)"
proof -
  have "lineage_total s g c =
      sum_list (map (\<lambda>i. if root_of g i = Some c then cc_amount (carbonCredits s i) else 0)
        [1..<Suc (carbonCreditIds s)])"
    unfolding lineage_total_def by (rule sum_list_map_filter')
  also have "\<dots> = (\<Sum>i\<in>set [1..<Suc (carbonCreditIds s)].
      if root_of g i = Some c then cc_amount (carbonCredits s i) else 0)"
    by (rule sum_set_upt_conv_sum_list_nat [symmetric])
  also have "set [1..<Suc (carbonCreditIds s)] = {1..carbonCreditIds s}"
    by auto
  finally show ?thesis .
qed

lemma lineage_total_same:
  assumes "carbonCreditIds s' = carbonCreditIds s"
    and "\<And>i. cc_amount (carbonCredits s' i) = cc_amount (carbonCredits s i)"
  shows "lineage_total s' g c = lineage_total s g c"
  unfolding lineage_total_sum assms(1) by (intro sum.cong) (simp_all add: assms(2))

lemma conserved_same:
  assumes "conserved s g" and "carbonCreditIds s' = carbonCreditIds s"
    and "\<And>i. cc_amount (carbonCredits s' i) = cc_amount (carbonCredits s i)"
  shows "conserved s' g"
  using assms(1) lineage_total_same [OF assms(2,3)] assms(2)
  by (simp add: conserved_def)

lemma conserved_mint:
  assumes inv: "conserved s g"
    and n': "carbonCreditIds s' = Suc (carbonCreditIds s)"
    and new: "cc_amount (carbonCredits s' (Suc (carbonCreditIds s))) = a"
    and old: "\<And>i. i \<le> carbonCreditIds s \<Longrightarrow> cc_amount (carbonCredits s' i) = cc_amount (carbonCredits s i)"
  shows "conserved s' (g\<lparr>root_of := (root_of g)(Suc (carbonCreditIds s) \<mapsto> Suc (carbonCreditIds s)),
            minted_amount := (minted_amount g)(Suc (carbonCreditIds s) \<mapsto> a)\<rparr>)"
    (is "conserved s' ?g")
proof -
  let ?n = "carbonCreditIds s"
  from inv have bound: "\<And>i r. root_of g i = Some r \<Longrightarrow> 1 \<le> i \<and> i \<le> ?n \<and> r \<le> ?n"
    and total: "\<And>c N. minted_amount g c = Some N \<Longrightarrow> root_of g c = Some c \<and> lineage_total s g c = N"
    by (auto simp: conserved_def)
  have below: "(\<Sum>i = 1..?n. if root_of ?g i = Some c then cc_amount (carbonCredits s' i) else 0)
      = (if c = Suc ?n then 0 else lineage_total s g c)" for c
  proof (cases "c = Suc ?n")
    case True
    have "\<And>i. i \<in> {1..?n} \<Longrightarrow> root_of g i \<noteq> Some (Suc ?n)"
      using bound by fastforce
    then show ?thesis using True by (simp add: sum.neutral)
  next
    case False
    then show ?thesis
      unfolding lineage_total_sum by (auto intro!: sum.cong simp: old)
  qed
  have tot: "lineage_total s' ?g c = (if c = Suc ?n then a else lineage_total s g c)" for c
    unfolding lineage_total_sum [of s'] n'
    using below [of c] new by (simp add: atLeastAtMostSuc_conv)
  show ?thesis
    unfolding conserved_def
  proof (intro conjI allI impI)
    fix i r assume "root_of ?g i = Some r"
    then show "1 \<le> i" "i \<le> carbonCreditIds s'" "r \<le> carbonCreditIds s'"
      using bound [of i r] n' by (auto split: if_splits)
  next
    fix c N assume "minted_amount ?g c = Some N"
    then show "root_of ?g c = Some c" "lineage_total s' ?g c = N"
      using total [of c N] tot [of c] by (auto split: if_splits)
  qed
qed

lemma conserved_split:
  assumes inv: "conserved s g"
    and n': "carbonCreditIds s' = Suc (carbonCreditIds s)"
    and cid: "cid \<le> carbonCreditIds s" and a: "a \<le> cc_amount (carbonCredits s cid)"
    and amt: "\<And>i. cc_amount (carbonCredits s' i) =
        (if i = Suc (carbonCreditIds s) then a
         else if i = cid then cc_amount (carbonCredits s cid) - a else cc_amount (carbonCredits s i))"
  shows "conserved s' (g\<lparr>root_of := (root_of g)(Suc (carbonCreditIds s) := root_of g cid)\<rparr>)"
    (is "conserved s' ?g")
proof -
  let ?n = "carbonCreditIds s"
  let ?f = "\<lambda>c i. if root_of g i = Some c then cc_amount (carbonCredits s i) else 0"
  let ?f' = "\<lambda>c i. if root_of ?g i = Some c then cc_amount (carbonCredits s' i) else 0"
  from inv have bound: "\<And>i r. root_of g i = Some r \<Longrightarrow> 1 \<le> i \<and> i \<le> ?n \<and> r \<le> ?n"
    and total: "\<And>c N. minted_amount g c = Some N \<Longrightarrow> root_of g c = Some c \<and> lineage_total s g c = N"
    by (auto simp: conserved_def)
  have tot: "lineage_total s' ?g c = lineage_total s g c" for c
  proof (cases "root_of g cid = Some c")
    case False
    have "sum (?f' c) {1..?n} = sum (?f c) {1..?n}"
      using False by (intro sum.cong) (auto simp: amt)
    then show ?thesis
      unfolding lineage_total_sum n' using False by (simp add: atLeastAtMostSuc_conv)
  next
    case True
    then have mem: "cid \<in> {1..?n}" using bound [of cid c] by simp
    have rest: "sum (?f' c) ({1..?n} - {cid}) = sum (?f c) ({1..?n} - {cid})"
      by (intro sum.cong) (auto simp: amt)
    have "sum (?f' c) {1..?n} = ?f' c cid + sum (?f' c) ({1..?n} - {cid})"
      by (rule sum.remove [OF _ mem]) simp
    moreover have "sum (?f c) {1..?n} = ?f c cid + sum (?f c) ({1..?n} - {cid})"
      by (rule sum.remove [OF _ mem]) simp
    moreover have "?f' c cid = cc_amount (carbonCredits s cid) - a" "?f c cid = cc_amount (carbonCredits s cid)"
      using True mem by (simp_all add: amt)
    ultimately have "sum (?f' c) {1..?n} + a = sum (?f c) {1..?n}"
      using rest a by simp
    then show ?thesis
      unfolding lineage_total_sum n' using True by (simp add: atLeastAtMostSuc_conv amt)
  qed
  show ?thesis
    unfolding conserved_def
  proof (intro conjI allI impI)
    fix i r assume "root_of ?g i = Some r"
    then show "1 \<le> i" "i \<le> carbonCreditIds s'" "r \<le> carbonCreditIds s'"
      using bound [of i r] bound [of cid r] n' by (auto split: if_splits)
  next
    fix c N assume "minted_amount ?g c = Some N"
    then have m: "minted_amount g c = Some N" by simp
    from total [OF m] bound [of c c] have "c \<noteq> Suc ?n" by auto
    with total [OF m] tot [of c] show "root_of ?g c = Some c" "lineage_total s' ?g c = N"
      by auto
  qed
qed


lemma mint_Inr:
  assumes "mintCarbonCredit e s a p c d v t = Inr (s', n)"
  shows "n = Suc (carbonCreditIds s)" "carbonCreditIds s' = Suc (carbonCreditIds s)"
    "cc_amount (carbonCredits s' (Suc (carbonCreditIds s))) = a"
    "\<And>i. i \<le> carbonCreditIds s \<Longrightarrow> carbonCredits s' i = carbonCredits s i"
    "0 < a"
  using assms by (auto simp: mintCarbonCredit_def increment_def Let_def split: if_splits)

lemma transact_conserved:
  assumes "conserved s g"
  shows "conserved (transact s tx) (track (fst tx) s (snd tx) g)"
proof (cases tx)
  case (Pair e c)
  show ?thesis
  proof (cases c)
    case (MintCarbonCredit a p ch d v t)
    show ?thesis
    proof (cases "mintCarbonCredit e s a p ch d v t")
      case (Inl err)
      then show ?thesis using assms Pair MintCarbonCredit by (simp add: transact_def)
    next
      case (Inr res)
      obtain s' n where res: "res = (s', n)" by (cases res)
      note ok = mint_Inr [OF Inr [unfolded res]]
      have "conserved s' (g\<lparr>root_of := (root_of g)(Suc (carbonCreditIds s) \<mapsto> Suc (carbonCreditIds s)),
            minted_amount := (minted_amount g)(Suc (carbonCreditIds s) \<mapsto> a)\<rparr>)"
        using assms ok(2,3) by (rule conserved_mint) (simp add: ok(4))
      then show ?thesis
        using Inr res ok(1) Pair MintCarbonCredit by (simp add: transact_def)
    qed
  next
    case (TradeCarbonCredit cid a v)
    show ?thesis
    proof (cases "tradeCarbonCredit e s cid a v")
      case (Inl err)
      then show ?thesis using assms Pair TradeCarbonCredit by (simp add: transact_def)
    next
      case (Inr res)
      obtain s' payouts where res: "res = (s', payouts)" by (cases res)
      note ok = trade_Inr [OF Inr [unfolded res]]
      show ?thesis
      proof (cases "a = cc_amount (carbonCredits s cid)")
        case True
        with ok(6) have s': "s' = fullTrade e s cid" by simp
        have "conserved s' g"
          using assms unfolding s' by (rule conserved_same) (simp_all add: fullTrade_simps)
        then show ?thesis
          using Inr res Pair TradeCarbonCredit s' by (simp add: transact_def fullTrade_simps)
      next
        case False
        with ok(6) have s': "s' = partialTrade e s cid a" by simp
        have "conserved s' (g\<lparr>root_of := (root_of g)(Suc (carbonCreditIds s) := root_of g cid)\<rparr>)"
          using assms _ ok(1,3) unfolding s'
          by (rule conserved_split) (simp_all add: partialTrade_simps)
        then show ?thesis
          using Inr res Pair TradeCarbonCredit s' by (simp add: transact_def partialTrade_simps)
      qed
    qed
  qed (use assms Pair in \<open>auto simp: simple_call_defs intro!: conserved_same [of s g]\<close>)
qed

lemma run_tracked_conserved:
  assumes "conserved s g" and "run_tracked s g txs = (s', g')"
  shows "conserved s' g'"
  using assms
proof (induction txs arbitrary: s g)
  case Nil
  then show ?case by simp
next
  case (Cons tx txs)
  from Cons.prems(1) have "conserved (transact s tx) (track (fst tx) s (snd tx) g)"
    by (rule transact_conserved)
  with Cons.prems(2) show ?case by (auto intro: Cons.IH)
qed

lemma run_tracked_fst: "fst (run_tracked s g txs) = run s txs"
  by (induction txs arbitrary: s g) (simp_all add: run_def)

lemma conserved_deploy: "conserved (deploy d) no_provenance"
  by (simp add: conserved_def no_provenance_def)

text \<open>
  Claim C1. Replay any sequence of transactions from deployment, keeping the provenance of the
  lots. For every lot minted with amount \<open>N\<close>, the amounts of that lot and of all lots split
  from it, directly or through further splits, add up to \<open>N\<close> in the final state. (A
  retirement sets a flag and leaves the amounts, so the sum holds after retirements too.)
\<close>

theorem conservation_of_minted_amount:
  assumes "run_tracked (deploy d) no_provenance txs = (s, g)"
    and "minted_amount g c = Some N"
  shows "s = run (deploy d) txs \<and> root_of g c = Some c \<and> lineage_total s g c = N"
proof -
  have "conserved s g"
    using conserved_deploy assms(1) by (rule run_tracked_conserved)
  with assms(2) have "root_of g c = Some c \<and> lineage_total s g c = N"
    by (simp add: conserved_def)
  moreover have "s = run (deploy d) txs"
    using run_tracked_fst [of "deploy d" no_provenance txs] assms(1) by simp
  ultimately show ?thesis by simp
qed


theorem conservation_of_minted_amount_witness:
  "\<exists>s g. run_tracked (deploy 9) no_provenance
       [(caller 1 1700000000, MintCarbonCredit 100 10 ''cert'' ''wind farm'' 2022 RENEWABLE_ENERGY),
        (caller 2 1700000100, TradeCarbonCredit 1 40 400),
        (caller 3 1700000200, TradeCarbonCredit 2 10 100),
        (caller 3 1700000300, TradeCarbonCredit 1 60 600)] = (s, g)
     \<and> minted_amount g 1 = Some 100 \<and> lineage_total s g 1 = 100
     \<and> map (root_of g) [1, 2, 3] = [Some 1, Some 1, Some 1]
     \<and> map (\<lambda>i. cc_amount (carbonCredits s i)) [1, 2, 3] = [60, 30, 10]
     \<and> map (\<lambda>i. cc_owner (carbonCredits s i)) [1, 2, 3] = [3, 2, 3]"
proof -
  let ?txs = "[(caller 1 1700000000, MintCarbonCredit 100 10 ''cert'' ''wind farm'' 2022 RENEWABLE_ENERGY),
        (caller 2 1700000100, TradeCarbonCredit 1 40 400),
        (caller 3 1700000200, TradeCarbonCredit 2 10 100),
        (caller 3 1700000300, TradeCarbonCredit 1 60 600)]"
  obtain s g where sg: "run_tracked (deploy 9) no_provenance ?txs = (s, g)"
    by (cases "run_tracked (deploy 9) no_provenance ?txs")
  have ev: "minted_amount (snd (run_tracked (deploy 9) no_provenance ?txs)) 1 = Some 100"
    "map (root_of (snd (run_tracked (deploy 9) no_provenance ?txs))) [1, 2, 3] = [Some 1, Some 1, Some 1]"
    "map (\<lambda>i. cc_amount (carbonCredits (fst (run_tracked (deploy 9) no_provenance ?txs)) i)) [1, 2, 3] = [60, 30, 10]"
    "map (\<lambda>i. cc_owner (carbonCredits (fst (run_tracked (deploy 9) no_provenance ?txs)) i)) [1, 2, 3] = [3, 2, 3]"
    by (simp_all add: eval_defs no_provenance_def)
  then have m: "minted_amount g 1 = Some 100" using sg by simp
  from conservation_of_minted_amount [OF sg m] have tot: "lineage_total s g 1 = 100" by blast
  from ev sg have rest: "map (root_of g) [1, 2, 3] = [Some 1, Some 1, Some 1]"
    "map (\<lambda>i. cc_amount (carbonCredits s i)) [1, 2, 3] = [60, 30, 10]"
    "map (\<lambda>i. cc_owner (carbonCredits s i)) [1, 2, 3] = [3, 2, 3]"
    by simp_all
  show ?thesis
    by (rule exI [of _ s], rule exI [of _ g]) (intro conjI sg m tot rest)
qed

section \<open>The vintage bound\<close>

declare year_from.simps [simp del]

lemma year_from_le: "year_from y d \<le> y + d div 365"
proof (induction y d rule: year_from.induct)
  case (1 y d)
  show ?case
  proof (cases "d < days_in_year y")
    case True
    then show ?thesis by (subst year_from.simps) simp
  next
    case False
    then have d: "365 \<le> d" by (simp add: days_in_year_def split: if_splits)
    have "year_from y d = year_from (y + 1) (d - days_in_year y)"
      using False by (subst year_from.simps) simp
    also have "\<dots> \<le> y + 1 + (d - days_in_year y) div 365"
      using "1.IH" [OF False] .
    also have "(d - days_in_year y) div 365 \<le> (d - 365) div 365"
      by (intro div_le_mono) (auto simp: days_in_year_def)
    also have "y + 1 + (d - 365) div 365 = y + d div 365"
      using d by (simp add: le_div_geq)
    finally show ?thesis by simp
  qed
qed

lemma spec_calendar_year_le: "spec_calendar_year ts \<le> ts div DAYS_365 + 1970"
proof -
  have "spec_calendar_year ts \<le> 1970 + (ts div 86400) div 365"
    unfolding spec_calendar_year_def by (rule year_from_le)
  also have "(ts div 86400) div 365 = ts div DAYS_365"
    by (simp add: DAYS_365_def div_mult2_eq)
  finally show ?thesis by simp
qed

text \<open>
  What the guard of \<open>mintCarbonCredit\<close> does: the call succeeds exactly when the amount is
  positive and the vintage lies between 2020 and \<open>block.timestamp / 365 days + 1970\<close>
  inclusive, and that upper bound is never below the calendar year of the chain clock.
\<close>

lemma mint_vintage_check:
  "((\<exists>s' n. mintCarbonCredit e s amount p ch pd vintage ct = Inr (s', n)) \<longleftrightarrow>
      0 < amount \<and> 2020 \<le> vintage \<and> vintage \<le> block_timestamp e div DAYS_365 + 1970)
   \<and> (0 < amount \<longrightarrow> vintage < 2020 \<or> block_timestamp e div DAYS_365 + 1970 < vintage \<longrightarrow>
        mintCarbonCredit e s amount p ch pd vintage ct = Inl (Revert ''Invalid vintage year''))
   \<and> (amount = 0 \<longrightarrow>
        mintCarbonCredit e s amount p ch pd vintage ct = Inl (Revert ''Amount must be greater than 0''))
   \<and> spec_calendar_year (block_timestamp e) \<le> block_timestamp e div DAYS_365 + 1970"
  using spec_calendar_year_le [of "block_timestamp e"]
  by (auto simp: mintCarbonCredit_def Let_def)

text \<open>
  Claim C8 says a mint fails for every vintage after the current calendar year of the chain
  clock. The guard of \<open>mintCarbonCredit\<close> takes \<open>block.timestamp / 365 days + 1970\<close> for
  the current year, which counts every year as 365 days and so runs ahead of the calendar by the
  leap days passed since 1970. At Unix time 1766016000 (18 December 2025, 00:00:00 UTC) the
  calendar year is 2025, the guard's year is 2026 already, and a mint with vintage 2026 succeeds.
\<close>

theorem vintage_after_calendar_year_accepted:
  "spec_calendar_year 1766016000 = 2025 \<and>
   map_sum id snd (mintCarbonCredit (caller 1 1766016000) (deploy 9) 100 10 ''cert'' ''wind farm''
      2026 RENEWABLE_ENERGY) = Inr 1"
  by (simp add: spec_calendar_year_def year_from.simps days_in_year_def is_leap_year_def eval_defs)

section \<open>Updating a digital twin\<close>

lemma transact_absent_twin:
  assumes "digitalTwins s k = zero_twin" and "\<not> creates k (snd tx)"
  shows "digitalTwins (transact s tx) k = zero_twin"
proof (cases tx)
  case (Pair e c)
  show ?thesis
  proof (cases c)
    case (TradeCarbonCredit c' a v)
    show ?thesis
      using assms unfolding Pair TradeCarbonCredit
      by (cases rule: transact_trade_cases [of s e c' a v])
         (simp_all add: fullTrade_simps partialTrade_simps)
  next
    case (UpdateDigitalTwin t n)
    show ?thesis
      using assms unfolding Pair UpdateDigitalTwin
      by (auto simp: transact_def updateDigitalTwin_def zero_twin_def)
  qed (use assms Pair in \<open>auto simp: simple_call_defs\<close>)
qed

lemma run_absent_twin:
  assumes "digitalTwins s k = zero_twin" and "list_all (\<lambda>tx. \<not> creates k (snd tx)) txs"
  shows "digitalTwins (run s txs) k = zero_twin"
  using assms
proof (induction txs arbitrary: s)
  case Nil
  then show ?case by (simp add: run_def)
next
  case (Cons tx txs)
  then have "digitalTwins (transact s tx) k = zero_twin"
    by (simp add: transact_absent_twin)
  with Cons show ?case by (simp add: run_Cons)
qed

text \<open>
  Claim C9, as stated, fails: \<open>updateDigitalTwin\<close> on a twin id that was never created
  fails with "Not twin owner", the same revert a caller who is not the owner gets on an existing
  twin (the spec's AuthorizationError); the function has no check of its own for a missing twin.
\<close>

theorem update_missing_twin_not_owner:
  "updateDigitalTwin (caller 1 1700000000) (deploy 9) ''plant-7'' 5 = Inl (Revert ''Not twin owner'')
   \<and> updateDigitalTwin (caller 1 1700000000)
        (run (deploy 9) [(caller 2 1690000000, CreateDigitalTwin ''plant-7'' ''factory'' 10 ''Qm'')])
        ''plant-7'' 5 = Inl (Revert ''Not twin owner'')"
  by (simp add: eval_defs)

text \<open>
  Claim C9, amended. In a state reached from deployment without a \<open>createDigitalTwin\<close> for
  the twin id, \<open>updateDigitalTwin\<close> fails with "Not twin owner" for every caller other than
  the zero address (and with "Twin not active" for the zero address). In any state, a caller who
  is not the stored owner gets "Not twin owner", the owner of an inactive twin gets
  "Twin not active", and a failing call leaves the storage as it was.
\<close>

theorem updateDigitalTwin_preconditions:
  "(list_all (\<lambda>tx. \<not> creates twinId (snd tx)) txs \<longrightarrow>
      updateDigitalTwin e (run (deploy d) txs) twinId n =
        (if msg_sender e \<noteq> 0 then Inl (Revert ''Not twin owner'') else Inl (Revert ''Twin not active'')))
   \<and> (dt_owner (digitalTwins s twinId) \<noteq> msg_sender e \<longrightarrow>
        updateDigitalTwin e s twinId n = Inl (Revert ''Not twin owner''))
   \<and> (dt_owner (digitalTwins s twinId) = msg_sender e \<longrightarrow> \<not> dt_active (digitalTwins s twinId) \<longrightarrow>
        updateDigitalTwin e s twinId n = Inl (Revert ''Twin not active''))
   \<and> (\<forall>err. updateDigitalTwin e s twinId n = Inl err \<longrightarrow>
        transact s (e, UpdateDigitalTwin twinId n) = s)"
proof -
  have "updateDigitalTwin e (run (deploy d) txs) twinId n =
        (if msg_sender e \<noteq> 0 then Inl (Revert ''Not twin owner'') else Inl (Revert ''Twin not active''))"
    if "list_all (\<lambda>tx. \<not> creates twinId (snd tx)) txs"
  proof -
    have "digitalTwins (deploy d) twinId = zero_twin" by (simp add: deploy_def)
    from run_absent_twin [OF this that] show ?thesis
      by (auto simp: updateDigitalTwin_def zero_twin_def)
  qed
  then show ?thesis
    by (auto simp: updateDigitalTwin_def transact_def)
qed

theorem updateDigitalTwin_preconditions_witness:
  "list_all (\<lambda>tx. \<not> creates ''plant-8'' (snd tx))
       [(caller 2 1690000000, CreateDigitalTwin ''plant-7'' ''factory'' 10 ''Qm'')]
   \<and> updateDigitalTwin (caller 2 1700000000)
        (run (deploy 9) [(caller 2 1690000000, CreateDigitalTwin ''plant-7'' ''factory'' 10 ''Qm'')])
        ''plant-8'' 5 = Inl (Revert ''Not twin owner'')
   \<and> dt_owner (digitalTwins
        (run (deploy 9) [(caller 2 1690000000, CreateDigitalTwin ''plant-7'' ''factory'' 10 ''Qm'')])
        ''plant-7'') \<noteq> msg_sender (caller 1 1700000000)
   \<and> updateDigitalTwin (caller 1 1700000000)
        (run (deploy 9) [(caller 2 1690000000, CreateDigitalTwin ''plant-7'' ''factory'' 10 ''Qm'')])
        ''plant-7'' 5 = Inl (Revert ''Not twin owner'')
   \<and> updateDigitalTwin (caller 2 1700000000)
        ((deploy 9)\<lparr>digitalTwins := (digitalTwins (deploy 9))(''plant-7'' :=
            zero_twin\<lparr>dt_twinId := ''plant-7'', dt_owner := 2\<rparr>)\<rparr>)
        ''plant-7'' 5 = Inl (Revert ''Twin not active'')
   \<and> transact (deploy 9) (caller 1 1700000000, UpdateDigitalTwin ''plant-7'' 5) = deploy 9"
proof -
  let ?txs = "[(caller 2 1690000000, CreateDigitalTwin ''plant-7'' ''factory'' 10 ''Qm'')]"
  let ?inactive = "(deploy 9)\<lparr>digitalTwins := (digitalTwins (deploy 9))(''plant-7'' :=
            zero_twin\<lparr>dt_twinId := ''plant-7'', dt_owner := 2\<rparr>)\<rparr>"
  have h1: "list_all (\<lambda>tx. \<not> creates ''plant-8'' (snd tx)) ?txs"
    by simp
  have h2: "dt_owner (digitalTwins (run (deploy 9) ?txs) ''plant-7'') \<noteq> msg_sender (caller 1 1700000000)"
    by (simp add: eval_defs)
  have h3: "dt_owner (digitalTwins ?inactive ''plant-7'') = msg_sender (caller 2 1700000000)"
    "\<not> dt_active (digitalTwins ?inactive ''plant-7'')"
    by (simp_all add: eval_defs)
  have h4: "updateDigitalTwin (caller 1 1700000000) (deploy 9) ''plant-7'' 5 = Inl (Revert ''Not twin owner'')"
    by (simp add: eval_defs)
  from updateDigitalTwin_preconditions [of "''plant-8''" ?txs "caller 2 1700000000" 9 5] h1
  have c1: "updateDigitalTwin (caller 2 1700000000) (run (deploy 9) ?txs) ''plant-8'' 5
      = Inl (Revert ''Not twin owner'')"
    by (simp add: caller_def)
  from updateDigitalTwin_preconditions [where e = "caller 1 1700000000" and s = "run (deploy 9) ?txs" and twinId = "''plant-7''" and n = 5] h2
  have c2: "updateDigitalTwin (caller 1 1700000000) (run (deploy 9) ?txs) ''plant-7'' 5
      = Inl (Revert ''Not twin owner'')"
    by blast
  from updateDigitalTwin_preconditions [where e = "caller 2 1700000000" and s = ?inactive and twinId = "''plant-7''" and n = 5] h3
  have c3: "updateDigitalTwin (caller 2 1700000000) ?inactive ''plant-7'' 5
      = Inl (Revert ''Twin not active'')"
    by blast
  from updateDigitalTwin_preconditions [where e = "caller 1 1700000000" and s = "deploy 9" and twinId = "''plant-7''" and n = 5] h4
  have c4: "transact (deploy 9) (caller 1 1700000000, UpdateDigitalTwin ''plant-7'' 5) = deploy 9"
    by blast
  from h1 c1 h2 c2 c3 c4 show ?thesis by (intro conjI)
qed

section \<open>Lots of amount zero\<close>

text \<open>
  Claim C3 says a lot that is not retired always has a positive amount. \<open>mintCarbonCredit\<close>
  requires a positive amount; \<open>tradeCarbonCredit\<close> has no such check. A trade of amount 0 of
  lot 1, by an account that does not own it and with no payment, succeeds, takes the partial
  branch and creates lot 2 with amount 0, not retired.
\<close>

theorem zero_amount_lot_by_trade:
  "map_sum id snd (tradeCarbonCredit (caller 2 1700000100)
      (run (deploy 9)
        [(caller 1 1700000000, MintCarbonCredit 100 10 ''cert'' ''wind farm'' 2022 RENEWABLE_ENERGY)])
      1 0 0) = Inr [(1, 0)]
   \<and> carbonCreditIds (run (deploy 9)
        [(caller 1 1700000000, MintCarbonCredit 100 10 ''cert'' ''wind farm'' 2022 RENEWABLE_ENERGY),
         (caller 2 1700000100, TradeCarbonCredit 1 0 0)]) = 2
   \<and> carbonCredits (run (deploy 9)
        [(caller 1 1700000000, MintCarbonCredit 100 10 ''cert'' ''wind farm'' 2022 RENEWABLE_ENERGY),
         (caller 2 1700000100, TradeCarbonCredit 1 0 0)]) 2
      = \<lparr>cc_id = 2, cc_owner = 2, cc_amount = 0, cc_pricePerTon = 10, cc_certificationHash = ''cert'',
         cc_projectDetails = ''wind farm'', cc_retired = False, cc_vintage = 2022,
         cc_creditType = RENEWABLE_ENERGY\<rparr>"
  by (simp add: eval_defs)

section \<open>The id zero\<close>

lemma unknown_id_rejected:
  "emissionReportIds s < rid \<Longrightarrow> authorizedVerifiers s (msg_sender e) \<Longrightarrow>
     verifyEmissionReport e s rid sc p = Inl (Revert ''Invalid report ID'')"
  "carbonCreditIds s < cid \<Longrightarrow> tradeCarbonCredit e s cid a v = Inl (Revert ''Invalid credit ID'')"
  "carbonCreditIds s < cid \<Longrightarrow> retireCarbonCredit e s cid = Inl (Revert ''Invalid credit ID'')"
  by (simp_all add: verifyEmissionReport_def tradeCarbonCredit_def retireCarbonCredit_def)

text \<open>
  Claim C6 says an id that was never assigned is rejected as invalid, id 0 in particular. The
  modifiers compare the id with the counter only (ids above the counter are rejected, see
  \<open>unknown_id_rejected\<close>), so on the freshly deployed contract the deployer verifies report 0,
  which marks it verified and sets the score of the zero address, and any account trades lot 0
  with amount 0, becomes its owner and can then retire it.
\<close>

theorem id_zero_accepted:
  "verifyEmissionReport (caller 9 1700000000) (deploy 9) 0 50 True
     = Inr ((deploy 9)\<lparr>emissionReports := (emissionReports (deploy 9))(0 :=
          zero_report\<lparr>er_verified := True, er_verificationScore := 50, er_verifier := 9\<rparr>),
        companyScores := (companyScores (deploy 9))(0 := 25)\<rparr>)
   \<and> map_sum id snd (tradeCarbonCredit (caller 2 1700000000) (deploy 9) 0 0 0) = Inr [(0, 0)]
   \<and> cc_owner (carbonCredits (run (deploy 9) [(caller 2 1700000000, TradeCarbonCredit 0 0 0)]) 0) = 2
   \<and> cc_retired (carbonCredits (run (deploy 9)
        [(caller 2 1700000000, TradeCarbonCredit 0 0 0),
         (caller 2 1700000100, RetireCarbonCredit 0)]) 0)
   \<and> retireCarbonCredit (caller 2 1700000000) (deploy 9) 0 = Inl (Revert ''Not credit owner'')"
  by (simp add: eval_defs)

section \<open>Duplicate twin ids\<close>

lemma transact_named_twin:
  assumes "k \<noteq> []" and "dt_twinId (digitalTwins s k) = k"
  shows "dt_twinId (digitalTwins (transact s tx) k) = k
       \<and> dt_owner (digitalTwins (transact s tx) k) = dt_owner (digitalTwins s k)
       \<and> dt_baselineEmissions (digitalTwins (transact s tx) k) = dt_baselineEmissions (digitalTwins s k)"
proof (cases tx)
  case (Pair e c)
  show ?thesis
  proof (cases c)
    case (TradeCarbonCredit c' a v)
    show ?thesis
      using assms unfolding Pair TradeCarbonCredit
      by (cases rule: transact_trade_cases [of s e c' a v])
         (simp_all add: fullTrade_simps partialTrade_simps)
  qed (use assms Pair in \<open>auto simp: simple_call_defs\<close>)
qed

lemma run_named_twin:
  assumes "k \<noteq> []" and "dt_twinId (digitalTwins s k) = k"
  shows "dt_twinId (digitalTwins (run s txs) k) = k
       \<and> dt_owner (digitalTwins (run s txs) k) = dt_owner (digitalTwins s k)
       \<and> dt_baselineEmissions (digitalTwins (run s txs) k) = dt_baselineEmissions (digitalTwins s k)"
  using assms
proof (induction txs arbitrary: s)
  case Nil
  then show ?case by (simp add: run_def)
next
  case (Cons tx txs)
  from transact_named_twin [OF Cons.prems, of tx] Cons.IH [of "transact s tx"] Cons.prems(1)
  show ?case by (simp add: run_Cons)
qed

lemma duplicate_named_twin_rejected:
  assumes "twinId \<noteq> []" and "createDigitalTwin e s twinId f b h = Inr s1"
  shows "createDigitalTwin e' (run s1 txs) twinId f' b' h' = Inl (Revert ''Twin ID already exists'')
       \<and> dt_owner (digitalTwins (run s1 txs) twinId) = msg_sender e
       \<and> dt_baselineEmissions (digitalTwins (run s1 txs) twinId) = b"
proof -
  from assms(2) have "dt_twinId (digitalTwins s1 twinId) = twinId"
    "dt_owner (digitalTwins s1 twinId) = msg_sender e"
    "dt_baselineEmissions (digitalTwins s1 twinId) = b"
    by (auto simp: createDigitalTwin_def split: if_splits)
  with run_named_twin [OF assms(1) this(1), of txs] assms(1) show ?thesis
    by (simp add: createDigitalTwin_def)
qed

text \<open>
  Claim C10 says a second \<open>createDigitalTwin\<close> with a twin id already in use fails, the
  empty string included. The contract tests whether the stored \<open>twinId\<close> is empty, so a twin
  created under the empty string is never seen as existing (non-empty ids are rejected, see
  \<open>duplicate_named_twin_rejected\<close>): a second call by another account succeeds and replaces
  the twin.
\<close>

theorem empty_twin_id_overwritten:
  "dt_owner (digitalTwins (run (deploy 9)
        [(caller 1 1700000000, CreateDigitalTwin [] ''factory'' 10 ''Qm'')]) []) = 1
   \<and> \<not> isl (createDigitalTwin (caller 2 1700000100)
        (run (deploy 9) [(caller 1 1700000000, CreateDigitalTwin [] ''factory'' 10 ''Qm'')])
        [] ''office'' 20 ''Qn'')
   \<and> digitalTwins (run (deploy 9)
        [(caller 1 1700000000, CreateDigitalTwin [] ''factory'' 10 ''Qm''),
         (caller 2 1700000100, CreateDigitalTwin [] ''office'' 20 ''Qn'')]) []
      = \<lparr>dt_twinId = [], dt_owner = 2, dt_facilityType = ''office'', dt_baselineEmissions = 20,
         dt_currentEmissions = 20, dt_lastUpdated = 1700000100, dt_active = True,
         dt_dataHash = ''Qn''\<rparr>"
  by (simp add: eval_defs)


end
